theory Spec2Isabelle
  imports Main "HOL-Library.AList"
begin

section \<open>Filename sanitizer\<close>

text \<open>
  \<^verbatim>\<open>
  def sanitize_filename(filename):
      sanitized = re.sub(r'[\\/*?:"<>|]', "", filename)
      sanitized = sanitized.replace(" ", "_")
      return sanitized
  \<close>
  The pattern is one character class, so \<open>re.sub\<close> replaces every single character of the
  class by the replacement text; \<open>str.replace\<close> is called with a one-character needle.
  All characters involved are ASCII and no byte of a multi-byte UTF-8 sequence is ASCII, so
  the byte strings of HOL behave here as Python's code point strings do.
\<close>

definition invalid_chars :: "char list" where
  "invalid_chars =
     [CHR 0x5C, CHR ''/'', CHR ''*'', CHR ''?'', CHR '':'', CHR 0x22, CHR ''<'', CHR ''>'', CHR ''|'']"

definition re_sub_class :: "char list \<Rightarrow> string \<Rightarrow> string \<Rightarrow> string" where
  "re_sub_class cls repl s = concat (map (\<lambda>c. if c \<in> set cls then repl else [c]) s)"

definition str_replace :: "char \<Rightarrow> string \<Rightarrow> string \<Rightarrow> string" where
  "str_replace old new s = concat (map (\<lambda>c. if c = old then new else [c]) s)"

definition sanitize_filename :: "string \<Rightarrow> string" where
  "sanitize_filename filename =
     (let sanitized = re_sub_class invalid_chars [] filename;
          sanitized = str_replace (CHR '' '') ''_'' sanitized
      in sanitized)"

lemma re_sub_class_empty: "re_sub_class cls [] s = filter (\<lambda>c. c \<notin> set cls) s"
  by (induction s) (simp_all add: re_sub_class_def)

lemma str_replace_single: "str_replace old [new] s = map (\<lambda>c. if c = old then new else c) s"
  by (induction s) (simp_all add: str_replace_def)

lemma sanitize_filename_eq:
  "sanitize_filename s =
     map (\<lambda>c. if c = CHR '' '' then CHR ''_'' else c) (filter (\<lambda>c. c \<notin> set invalid_chars) s)"
  by (simp add: sanitize_filename_def re_sub_class_empty str_replace_single)

lemma underscore_valid: "CHR ''_'' \<notin> set invalid_chars"
  by (simp add: invalid_chars_def)

lemma space_valid: "CHR '' '' \<notin> set invalid_chars"
  by (simp add: invalid_chars_def)

lemma set_sanitize_filename:
  "set (sanitize_filename s) \<inter> (set invalid_chars \<union> {CHR '' ''}) = {}"
  using underscore_valid by (auto simp: sanitize_filename_eq)

lemma sanitize_filename_safe_id:
  "set s \<inter> (set invalid_chars \<union> {CHR '' ''}) = {} \<Longrightarrow> sanitize_filename s = s"
proof (induction s)
  case Nil
  show ?case by (simp add: sanitize_filename_eq)
next
  case (Cons c s)
  then show ?case by (auto simp: sanitize_filename_eq)
qed


text \<open>
  C8: sanitizing twice is the same as sanitizing once, and a name that has none of the nine
  characters and no space is returned unchanged.
\<close>

theorem sanitize_filename_idempotent:
  "sanitize_filename (sanitize_filename x) = sanitize_filename x
   \<and> (set x \<inter> (set invalid_chars \<union> {CHR '' ''}) = {} \<longrightarrow> sanitize_filename x = x)"
  using sanitize_filename_safe_id [OF set_sanitize_filename [of x]] sanitize_filename_safe_id [of x]
  by blast

theorem sanitize_filename_idempotent_witness:
  "set ''Week_1-notes.pdf'' \<inter> (set invalid_chars \<union> {CHR '' ''}) = {}
   \<and> sanitize_filename ''Week_1-notes.pdf'' = ''Week_1-notes.pdf''
   \<and> sanitize_filename (sanitize_filename ''a b/c:d.txt'') = sanitize_filename ''a b/c:d.txt''
   \<and> sanitize_filename ''a b/c:d.txt'' = ''a_bcd.txt''"
proof -
  have safe: "set ''Week_1-notes.pdf'' \<inter> (set invalid_chars \<union> {CHR '' ''}) = {}"
    by (simp add: invalid_chars_def)
  have "sanitize_filename ''a b/c:d.txt'' = ''a_bcd.txt''"
    by (simp add: sanitize_filename_eq invalid_chars_def)
  then show ?thesis
    using safe sanitize_filename_idempotent [of "''Week_1-notes.pdf''"]
      sanitize_filename_idempotent [of "''a b/c:d.txt''"]
    by simp
qed

section \<open>JSON values as Python sees them\<close>

text \<open>
  What \<open>response.json()\<close> returns: \<open>None\<close>, a bool, a number, a string, a list or a dict.
  The numbers of this API (ids, counts) are integers; numbers with a fraction are left out.
  A dict is kept as the list of its items and read with \<open>map_of\<close>.
\<close>

datatype json =
    JNull
  | JBool bool
  | JNum int
  | JStr string
  | JList "json list"
  | JDict "(string \<times> json) list"

text \<open>Python's truth value of such a value, as \<open>if x:\<close>, \<open>while x:\<close> and \<open>x or y\<close> test it.\<close>

fun truthy :: "json \<Rightarrow> bool" where
  "truthy JNull = False"
| "truthy (JBool b) = b"
| "truthy (JNum n) = (n \<noteq> 0)"
| "truthy (JStr s) = (s \<noteq> [])"
| "truthy (JList xs) = (xs \<noteq> [])"
| "truthy (JDict d) = (d \<noteq> [])"

text \<open>\<open>d.get(k)\<close>: the value, or \<open>None\<close> for a missing key.\<close>

definition dict_get :: "(string \<times> json) list \<Rightarrow> string \<Rightarrow> json" where
  "dict_get d k = (case map_of d k of None \<Rightarrow> JNull | Some v \<Rightarrow> v)"

section \<open>The transport\<close>

text \<open>
  A response as \<open>make_api_request\<close> reads it: its status code, what \<open>response.json()\<close>
  gives (\<open>None\<close> here when it raises \<open>JSONDecodeError\<close>), and the \<open>Link\<close> header, absent
  or already split by \<open>requests.utils.parse_header_links\<close> into one dict of strings per
  link.

  The session is a state machine over a state of the remote side that the model leaves
  open: \<open>session.get(url, params=params)\<close> answers with a response, or raises a
  \<open>RequestException\<close> (\<open>None\<close> here), and moves the state on.
\<close>

type_synonym link = "(string \<times> string) list"

record response =
  status_code :: nat
  json_body :: "json option"
  link_header :: "link list option"

type_synonym params = "(string \<times> json) list"

type_synonym 's session = "'s \<Rightarrow> json \<Rightarrow> params option \<Rightarrow> response option \<times> 's"

text \<open>\<open>response.raise_for_status()\<close> raises \<open>HTTPError\<close> for the codes 400 to 599.\<close>

definition raise_for_status :: "response \<Rightarrow> bool" where
  "raise_for_status r = (400 \<le> status_code r \<and> status_code r < 600)"

section \<open>Paginated fetcher\<close>

text \<open>
  \<^verbatim>\<open>
  next_url = None
  if 'Link' in response.headers:
      links = requests.utils.parse_header_links(response.headers['Link'])
      for link in links:
          if link.get('rel') == 'next':
              next_url = link.get('url')
              break
  \<close>
\<close>

fun next_link :: "link list \<Rightarrow> json" where
  "next_link [] = JNull"
| "next_link (l # ls) =
     (if map_of l ''rel'' = Some ''next''
      then (case map_of l ''url'' of None \<Rightarrow> JNull | Some u \<Rightarrow> JStr u)
      else next_link ls)"

definition next_url_of :: "response \<Rightarrow> json" where
  "next_url_of r = (case link_header r of None \<Rightarrow> JNull | Some links \<Rightarrow> next_link links)"

text \<open>What \<open>make_api_request\<close> returns: \<open>None\<close> or the list \<open>all_results\<close>.\<close>

datatype fetch_result = FetchFailed | Fetched "json list"

text \<open>
  The \<open>while next_url:\<close> loop of \<open>make_api_request\<close>. The loop follows links for as long
  as the remote side gives them, so it is a partial function: the value \<open>None\<close> of the
  option type stands for a run that never returns. Both \<open>continue\<close> statements come after
  \<open>next_url = None\<close>, so they go round with \<open>JNull\<close>.
\<close>

partial_function (option) make_api_request_loop ::
  "'s session \<Rightarrow> 's \<Rightarrow> json \<Rightarrow> params option \<Rightarrow> json list \<Rightarrow> (fetch_result \<times> 's) option" where
  "make_api_request_loop session s next_url params all_results =
     (if truthy next_url then
        (case session s next_url params of
           (None, s') \<Rightarrow> Some (FetchFailed, s')
         | (Some response, s') \<Rightarrow>
             if raise_for_status response then Some (FetchFailed, s')
             else
               (case json_body response of
                  None \<Rightarrow> make_api_request_loop session s' JNull None all_results
                | Some data \<Rightarrow>
                    (case data of
                       JList xs \<Rightarrow>
                         make_api_request_loop session s' (next_url_of response) None
                           (all_results @ xs)
                     | JDict d \<Rightarrow>
                         make_api_request_loop session s' JNull None (all_results @ [data])
                     | _ \<Rightarrow> make_api_request_loop session s' JNull None all_results)))
      else Some (Fetched all_results, s))"

definition make_api_request ::
  "'s session \<Rightarrow> 's \<Rightarrow> json \<Rightarrow> params option \<Rightarrow> (fetch_result \<times> 's) option" where
  "make_api_request session s url params = make_api_request_loop session s url params []"

text \<open>
  The remote side serves the given pages one after the other: starting at \<open>next_url\<close>, each
  request is answered without error by a list body equal to the next page. The result is
  the state, the locator and the parameters with which the request after the last of these
  pages would be made.
\<close>

fun page_walk ::
  "'s session \<Rightarrow> 's \<Rightarrow> json \<Rightarrow> params option \<Rightarrow> json list list \<Rightarrow>
     ('s \<times> json \<times> params option) option" where
  "page_walk session s next_url params [] = Some (s, next_url, params)"
| "page_walk session s next_url params (page # pages) =
     (if truthy next_url then
        (case session s next_url params of
           (None, s') \<Rightarrow> None
         | (Some response, s') \<Rightarrow>
             if \<not> raise_for_status response \<and> json_body response = Some (JList page)
             then page_walk session s' (next_url_of response) None pages
             else None)
      else None)"

text \<open>
  A remote side for the examples: a table from locator to reply (\<open>None\<close> for a request that
  raises), any other locator raises, and the state counts the requests made.
\<close>

definition served :: "(string \<times> response option) list \<Rightarrow> nat session" where
  "served tbl n url params =
     (case url of
        JStr u \<Rightarrow> (case map_of tbl u of Some r \<Rightarrow> (r, Suc n) | None \<Rightarrow> (None, Suc n))
      | _ \<Rightarrow> (None, Suc n))"

definition page_response :: "json list \<Rightarrow> string option \<Rightarrow> response" where
  "page_response records nxt =
     \<lparr>status_code = 200, json_body = Some (JList records),
      link_header =
        (case nxt of
           None \<Rightarrow> None
         | Some u \<Rightarrow> Some [[(''url'', ''prev''), (''rel'', ''prev'')], [(''url'', u), (''rel'', ''next'')]])\<rparr>"

definition body_response :: "nat \<Rightarrow> json option \<Rightarrow> response" where
  "body_response code b = \<lparr>status_code = code, json_body = b, link_header = None\<rparr>"

subsection \<open>The loop along a run of pages\<close>

lemma loop_falsy:
  "\<not> truthy next_url \<Longrightarrow>
     make_api_request_loop session s next_url params acc = Some (Fetched acc, s)"
  by (subst make_api_request_loop.simps) simp

lemma loop_page_walk:
  "page_walk session s next_url params pages = Some (s', next_url', params') \<Longrightarrow>
     make_api_request_loop session s next_url params acc =
     make_api_request_loop session s' next_url' params' (acc @ concat pages)"
proof (induction pages arbitrary: s next_url params acc)
  case Nil
  then show ?case by simp
next
  case (Cons page pages)
  from Cons.prems obtain response s1 where
    t: "truthy next_url" and
    g: "session s next_url params = (Some response, s1)" and
    ok: "\<not> raise_for_status response" and
    body: "json_body response = Some (JList page)" and
    rest: "page_walk session s1 (next_url_of response) None pages = Some (s', next_url', params')"
    by (auto split: if_splits prod.splits option.splits)
  have "make_api_request_loop session s next_url params acc =
        make_api_request_loop session s1 (next_url_of response) None (acc @ page)"
    by (subst make_api_request_loop.simps) (simp add: t g ok body)
  also have "\<dots> = make_api_request_loop session s' next_url' params' ((acc @ page) @ concat pages)"
    by (rule Cons.IH [OF rest])
  finally show ?case by simp
qed

lemma loop_transport_failure:
  assumes "truthy next_url"
    and "session s next_url params = (r, s')"
    and "(case r of None \<Rightarrow> True | Some response \<Rightarrow> raise_for_status response)"
  shows "make_api_request_loop session s next_url params acc = Some (FetchFailed, s')"
proof (cases r)
  case None
  with assms show ?thesis by (subst make_api_request_loop.simps) simp
next
  case (Some response)
  with assms show ?thesis by (subst make_api_request_loop.simps) simp
qed

lemma loop_last_body:
  assumes "truthy next_url"
    and "session s next_url params = (Some response, s')"
    and "\<not> raise_for_status response"
    and "\<forall>xs. json_body response \<noteq> Some (JList xs)"
  shows "make_api_request_loop session s next_url params acc =
         Some (Fetched (acc @ (case json_body response of Some (JDict d) \<Rightarrow> [JDict d] | _ \<Rightarrow> [])), s')"
proof (cases "json_body response")
  case None
  with assms show ?thesis
    by (subst make_api_request_loop.simps) (simp add: loop_falsy)
next
  case (Some data)
  with assms show ?thesis
    by (subst make_api_request_loop.simps) (cases data; simp add: loop_falsy)
qed

text \<open>
  C2: when the remote side serves N pages, each linked to the next by \<open>rel="next"\<close> and the
  last without a next locator, the fetcher returns the records of all pages, in page order
  and in the order within each page; the length of the result is the sum of the page sizes.
\<close>

theorem make_api_request_all_pages:
  assumes "page_walk session s url params pages = Some (s', next_url, params')"
    and "\<not> truthy next_url"
  shows "\<exists>xs. make_api_request session s url params = Some (Fetched xs, s')
           \<and> xs = concat pages \<and> length xs = sum_list (map length pages)"
proof -
  have "make_api_request session s url params = Some (Fetched (concat pages), s')"
    unfolding make_api_request_def
    by (simp add: loop_page_walk [OF assms(1)] loop_falsy [OF assms(2)])
  then show ?thesis by (simp add: length_concat)
qed

theorem make_api_request_all_pages_witness:
  "make_api_request
     (served [(''p1'', Some (page_response [JNum 1, JNum 2] (Some ''p2''))),
              (''p2'', Some (page_response [JNum 3] (Some ''p3''))),
              (''p3'', Some (page_response [JNum 4, JNum 5, JNum 6] None))])
     0 (JStr ''p1'') (Some [(''per_page'', JNum 100)])
   = Some (Fetched [JNum 1, JNum 2, JNum 3, JNum 4, JNum 5, JNum 6], 3)"
proof -
  let ?tbl = "[(''p1'', Some (page_response [JNum 1, JNum 2] (Some ''p2''))),
               (''p2'', Some (page_response [JNum 3] (Some ''p3''))),
               (''p3'', Some (page_response [JNum 4, JNum 5, JNum 6] None))]"
  have w: "page_walk (served ?tbl) 0 (JStr ''p1'') (Some [(''per_page'', JNum 100)])
             [[JNum 1, JNum 2], [JNum 3], [JNum 4, JNum 5, JNum 6]] = Some (3, JNull, None)"
    by (simp add: served_def page_response_def raise_for_status_def next_url_of_def
        numeral_3_eq_3)
  show ?thesis
    using make_api_request_all_pages [OF w] by simp
qed








section \<open>File registry builder\<close>

text \<open>
  The exceptions that the registry building can raise and does not catch: \<open>x.get\<close> on a
  value that is not a dict, \<open>d[k]\<close> for a missing key, and subscripting, iterating or
  hashing a value that does not allow it.
\<close>

datatype py_error = AttributeError | KeyError string | TypeError

text \<open>
  The keys of the dict \<open>files_to_download\<close>. Python compares keys with \<open>==\<close>, for which
  \<open>True\<close> is \<open>1\<close> and \<open>False\<close> is \<open>0\<close>; lists and dicts cannot be hashed.
\<close>

datatype key = KNone | KInt int | KStr string

fun hash_key :: "json \<Rightarrow> key option" where
  "hash_key JNull = Some KNone"
| "hash_key (JBool b) = Some (KInt (if b then 1 else 0))"
| "hash_key (JNum n) = Some (KInt n)"
| "hash_key (JStr s) = Some (KStr s)"
| "hash_key (JList xs) = None"
| "hash_key (JDict d) = None"

text \<open>The dict \<open>{'filename': ..., 'url': ..., 'id': ...}\<close> stored for a file.\<close>

record file_record =
  rec_filename :: json
  rec_url :: json
  rec_id :: json

text \<open>
  \<open>files_to_download\<close> in insertion order: \<open>AList.update\<close> replaces the value of a key
  that is present where it stands and appends a new key at the end, as a Python dict does.
\<close>

type_synonym registry = "(key \<times> file_record) list"

text \<open>
  The state of the build: the registry and the state of the remote side. The fields
  \<open>found_a\<close> and \<open>found_b\<close> are not in the source and nothing reads them: they list, in
  order, every record that reaches the insertion of Path A, and every record that reaches
  the duplicate check of Path B (the ones the source reports as added or as skipped
  duplicates).
\<close>

record 's build_state =
  files_to_download :: registry
  found_a :: "(key \<times> file_record) list"
  found_b :: "(key \<times> file_record) list"
  remote :: 's

text \<open>
  The dict display of lines 107-111 and 139-143, evaluated left to right:
  \<open>file_info['display_name']\<close>, \<open>file_info['url']\<close>, \<open>file_info['id']\<close>.
\<close>

definition new_record :: "(string \<times> json) list \<Rightarrow> py_error + file_record" where
  "new_record file_info =
     (case map_of file_info ''display_name'' of
        None \<Rightarrow> Inl (KeyError ''display_name'')
      | Some n \<Rightarrow>
          (case map_of file_info ''url'' of
             None \<Rightarrow> Inl (KeyError ''url'')
           | Some u \<Rightarrow>
               (case map_of file_info ''id'' of
                  None \<Rightarrow> Inl (KeyError ''id'')
                | Some i \<Rightarrow> Inr \<lparr>rec_filename = n, rec_url = u, rec_id = i\<rparr>)))"

text \<open>
  Path A, the body of \<open>for file_info in course_files\<close>:
  \<^verbatim>\<open>
  if file_info.get('url'):
      files_to_download[file_info['id']] = {...}
  else:
      print(... file_info.get('display_name', 'N/A'))
  \<close>
  The assignment is unconditional.
\<close>

definition path_a_step :: "json \<Rightarrow> 's build_state \<Rightarrow> py_error + 's build_state" where
  "path_a_step file_info st =
     (case file_info of
        JDict d \<Rightarrow>
          if truthy (dict_get d ''url'') then
            (case new_record d of
               Inl e \<Rightarrow> Inl e
             | Inr r \<Rightarrow>
                 (case hash_key (rec_id r) of
                    None \<Rightarrow> Inl TypeError
                  | Some k \<Rightarrow>
                      Inr (st\<lparr>files_to_download := AList.update k r (files_to_download st),
                              found_a := found_a st @ [(k, r)]\<rparr>)))
          else Inr st
      | _ \<Rightarrow> Inl AttributeError)"

fun path_a :: "json list \<Rightarrow> 's build_state \<Rightarrow> py_error + 's build_state" where
  "path_a [] st = Inr st"
| "path_a (file_info # course_files) st =
     (case path_a_step file_info st of
        Inl e \<Rightarrow> Inl e
      | Inr st' \<Rightarrow> path_a course_files st')"

text \<open>
  Path B, lines 137-148, for the first record \<open>file_info\<close> of a file detail:
  \<^verbatim>\<open>
  if isinstance(file_info, dict) and file_info.get('url'):
      if file_info['id'] not in files_to_download:
          files_to_download[file_info['id']] = {...}
          print(f"      Added file: {file_info['display_name']}")
      else:
          print(f"      Skipping duplicate file: {file_info['display_name']}")
  else:
      print(...)
  \<close>
\<close>

definition register_detail :: "json \<Rightarrow> 's build_state \<Rightarrow> py_error + 's build_state" where
  "register_detail file_info st =
     (case file_info of
        JDict d \<Rightarrow>
          if truthy (dict_get d ''url'') then
            (case map_of d ''id'' of
               None \<Rightarrow> Inl (KeyError ''id'')
             | Some i \<Rightarrow>
                 (case hash_key i of
                    None \<Rightarrow> Inl TypeError
                  | Some k \<Rightarrow>
                      if map_of (files_to_download st) k = None then
                        (case new_record d of
                           Inl e \<Rightarrow> Inl e
                         | Inr r \<Rightarrow>
                             Inr (st\<lparr>files_to_download := AList.update k r (files_to_download st),
                                     found_b := found_b st @ [(k, r)]\<rparr>))
                      else
                        (case map_of d ''display_name'' of
                           None \<Rightarrow> Inl (KeyError ''display_name'')
                         | Some n \<Rightarrow>
                             Inr (st\<lparr>found_b := found_b st @
                                    [(k, \<lparr>rec_filename = n, rec_url = dict_get d ''url'',
                                          rec_id = i\<rparr>)]\<rparr>))))
          else Inr st
      | _ \<Rightarrow> Inr st)"

text \<open>
  The body of \<open>for item in module_items\<close>, lines 129-150. The result \<open>None\<close> of the option
  type is a file detail fetch that never returns.
\<close>

definition process_item ::
  "'s session \<Rightarrow> json \<Rightarrow> 's build_state \<Rightarrow> (py_error + 's build_state) option" where
  "process_item session item st =
     (case item of
        JDict it \<Rightarrow>
          if dict_get it ''type'' = JStr ''File'' then
            (let file_detail_url = dict_get it ''url'' in
             if truthy file_detail_url then
               (case make_api_request session (remote st) file_detail_url None of
                  None \<Rightarrow> None
                | Some (file_details_list, s') \<Rightarrow>
                    (case file_details_list of
                       Fetched (file_info # rest) \<Rightarrow>
                         Some (register_detail file_info (st\<lparr>remote := s'\<rparr>))
                     | _ \<Rightarrow> Some (Inr (st\<lparr>remote := s'\<rparr>))))
             else Some (Inr st))
          else Some (Inr st)
      | _ \<Rightarrow> Some (Inl AttributeError))"

fun process_items ::
  "'s session \<Rightarrow> json list \<Rightarrow> 's build_state \<Rightarrow> (py_error + 's build_state) option" where
  "process_items session [] st = Some (Inr st)"
| "process_items session (item # module_items) st =
     (case process_item session item st of
        None \<Rightarrow> None
      | Some (Inl e) \<Rightarrow> Some (Inl e)
      | Some (Inr st') \<Rightarrow> process_items session module_items st')"

text \<open>
  What \<open>for item in module_items\<close> iterates over when \<open>module_items\<close> is the (truthy) value
  of the module's \<open>items\<close>: the elements of a list, the keys of a dict, the characters of a
  string; a number or a bool cannot be iterated.
\<close>

fun iterate :: "json \<Rightarrow> py_error + json list" where
  "iterate (JList xs) = Inr xs"
| "iterate (JDict d) = Inr (map (\<lambda>(k, v). JStr k) d)"
| "iterate (JStr s) = Inr (map (\<lambda>c. JStr [c]) s)"
| "iterate _ = Inl TypeError"

text \<open>
  The configuration: the course id as the f-strings render it, and \<open>fmt\<close>, the text that an
  f-string gives for a JSON value (here for a module's id).
\<close>

record config =
  course_id :: string
  fmt :: "json \<Rightarrow> string"

definition CANVAS_BASE_URL :: string where
  "CANVAS_BASE_URL = ''https://canvas.sfu.ca''"

definition files_url :: "config \<Rightarrow> string" where
  "files_url cfg = CANVAS_BASE_URL @ ''/api/v1/courses/'' @ course_id cfg @ ''/files''"

definition modules_url :: "config \<Rightarrow> string" where
  "modules_url cfg = CANVAS_BASE_URL @ ''/api/v1/courses/'' @ course_id cfg @ ''/modules''"

definition items_url :: "config \<Rightarrow> json \<Rightarrow> string" where
  "items_url cfg module_id =
     CANVAS_BASE_URL @ ''/api/v1/courses/'' @ course_id cfg @ ''/modules/'' @ fmt cfg module_id
       @ ''/items''"

text \<open>
  The body of \<open>for module in modules\<close>, lines 122-128: \<open>module['name']\<close> is read for the
  progress message, the inlined items are used when they are truthy, and otherwise the
  items are fetched, with \<open>or []\<close> turning a failed fetch into no items.
\<close>

definition process_module ::
  "config \<Rightarrow> 's session \<Rightarrow> json \<Rightarrow> 's build_state \<Rightarrow> (py_error + 's build_state) option" where
  "process_module cfg session module st =
     (case module of
        JDict m \<Rightarrow>
          (case map_of m ''name'' of
             None \<Rightarrow> Some (Inl (KeyError ''name''))
           | Some name \<Rightarrow>
               (let module_items = (case map_of m ''items'' of None \<Rightarrow> JList [] | Some v \<Rightarrow> v) in
                if \<not> truthy module_items then
                  (case map_of m ''id'' of
                     None \<Rightarrow> Some (Inl (KeyError ''id''))
                   | Some module_id \<Rightarrow>
                       (case make_api_request session (remote st) (JStr (items_url cfg module_id))
                               (Some [(''per_page'', JNum 100)]) of
                          None \<Rightarrow> None
                        | Some (fetched, s') \<Rightarrow>
                            process_items session
                              (case fetched of FetchFailed \<Rightarrow> [] | Fetched xs \<Rightarrow> xs)
                              (st\<lparr>remote := s'\<rparr>)))
                else
                  (case iterate module_items of
                     Inl e \<Rightarrow> Some (Inl e)
                   | Inr xs \<Rightarrow> process_items session xs st)))
      | _ \<Rightarrow> Some (Inl TypeError))"

fun process_modules ::
  "config \<Rightarrow> 's session \<Rightarrow> json list \<Rightarrow> 's build_state \<Rightarrow> (py_error + 's build_state) option" where
  "process_modules cfg session [] st = Some (Inr st)"
| "process_modules cfg session (module # modules) st =
     (case process_module cfg session module st of
        None \<Rightarrow> None
      | Some (Inl e) \<Rightarrow> Some (Inl e)
      | Some (Inr st') \<Rightarrow> process_modules cfg session modules st')"

text \<open>Lines 99-113: the file listing is fetched, and walked if the fetch did not fail.\<close>

definition path_a_all ::
  "config \<Rightarrow> 's session \<Rightarrow> 's build_state \<Rightarrow> (py_error + 's build_state) option" where
  "path_a_all cfg session st =
     (case make_api_request session (remote st) (JStr (files_url cfg))
             (Some [(''per_page'', JNum 100)]) of
        None \<Rightarrow> None
      | Some (course_files, s') \<Rightarrow>
          (case course_files of
             FetchFailed \<Rightarrow> Some (Inr (st\<lparr>remote := s'\<rparr>))
           | Fetched xs \<Rightarrow> Some (path_a xs (st\<lparr>remote := s'\<rparr>))))"

text \<open>Lines 115-150: the modules are fetched, and walked if the fetch did not fail.\<close>

definition path_b_all ::
  "config \<Rightarrow> 's session \<Rightarrow> 's build_state \<Rightarrow> (py_error + 's build_state) option" where
  "path_b_all cfg session st =
     (case make_api_request session (remote st) (JStr (modules_url cfg))
             (Some [(''include'', JList [JStr ''items'']), (''per_page'', JNum 50)]) of
        None \<Rightarrow> None
      | Some (modules, s') \<Rightarrow>
          (case modules of
             FetchFailed \<Rightarrow> Some (Inr (st\<lparr>remote := s'\<rparr>))
           | Fetched xs \<Rightarrow> process_modules cfg session xs (st\<lparr>remote := s'\<rparr>)))"

text \<open>Lines 97-150: the registry starts empty; Path A runs, then Path B.\<close>

definition build_registry ::
  "config \<Rightarrow> 's session \<Rightarrow> 's \<Rightarrow> (py_error + 's build_state) option" where
  "build_registry cfg session s =
     (case path_a_all cfg session
             \<lparr>files_to_download = [], found_a = [], found_b = [], remote = s\<rparr> of
        None \<Rightarrow> None
      | Some (Inl e) \<Rightarrow> Some (Inl e)
      | Some (Inr st) \<Rightarrow> path_b_all cfg session st)"

subsection \<open>What the registry holds\<close>

definition registry_inv :: "'s build_state \<Rightarrow> bool" where
  "registry_inv st =
     (map_of (files_to_download st) = map_of (found_b st) ++ map_of (rev (found_a st))
      \<and> distinct (map fst (files_to_download st)))"

lemma registry_inv_remote: "registry_inv (st\<lparr>remote := s'\<rparr>) = registry_inv st"
  by (simp add: registry_inv_def)

lemma path_a_step_inv:
  assumes "path_a_step file_info st = Inr st'" and "registry_inv st"
  shows "registry_inv st' \<and> found_b st' = found_b st"
  using assms
  by (auto simp: path_a_step_def registry_inv_def update_conv' distinct_update
      split: json.splits if_splits sum.splits option.splits)

lemma path_a_inv:
  "path_a course_files st = Inr st' \<Longrightarrow> registry_inv st \<Longrightarrow>
     registry_inv st' \<and> found_b st' = found_b st"
proof (induction course_files arbitrary: st)
  case Nil
  then show ?case by simp
next
  case (Cons file_info course_files)
  then show ?case
    by (auto split: sum.splits dest: path_a_step_inv)
qed

lemma map_add_first:
  "(mb ++ ma) k = None \<Longrightarrow> (mb ++ ma)(k \<mapsto> r) = ([k \<mapsto> r] ++ mb) ++ ma"
  by (rule ext) (auto simp: map_add_def split: option.splits)

lemma map_add_later:
  "(mb ++ ma) k \<noteq> None \<Longrightarrow> ([k \<mapsto> r] ++ mb) ++ ma = mb ++ ma"
  by (rule ext) (auto simp: map_add_def split: option.splits)

lemma register_detail_inv:
  assumes "register_detail file_info st = Inr st'" and "registry_inv st"
  shows "registry_inv st' \<and> found_a st' = found_a st"
  using assms
  by (auto simp: register_detail_def registry_inv_def update_conv' distinct_update
      map_add_first map_add_later
      split: json.splits if_splits sum.splits option.splits)

lemma process_item_inv:
  assumes "process_item session item st = Some (Inr st')" and "registry_inv st"
  shows "registry_inv st' \<and> found_a st' = found_a st"
proof -
  have step: "\<And>file_info s'. register_detail file_info (st\<lparr>remote := s'\<rparr>) = Inr st' \<Longrightarrow>
      registry_inv st' \<and> found_a st' = found_a st"
    using register_detail_inv [of _ "st\<lparr>remote := _\<rparr>" st'] assms(2)
    by (simp add: registry_inv_remote)
  from assms show ?thesis
    by (auto simp: process_item_def Let_def registry_inv_remote
        split: json.splits if_splits option.splits prod.splits fetch_result.splits list.splits
        dest: step)
qed

lemma process_items_inv:
  "process_items session module_items st = Some (Inr st') \<Longrightarrow> registry_inv st \<Longrightarrow>
     registry_inv st' \<and> found_a st' = found_a st"
proof (induction module_items arbitrary: st)
  case Nil
  then show ?case by simp
next
  case (Cons item module_items)
  from Cons.prems(1) obtain st1 where
    one: "process_item session item st = Some (Inr st1)" and
    rest: "process_items session module_items st1 = Some (Inr st')"
    by (auto split: option.splits sum.splits)
  from process_item_inv [OF one Cons.prems(2)] Cons.IH [OF rest]
  show ?case by simp
qed

lemma process_module_inv:
  assumes "process_module cfg session module st = Some (Inr st')" and "registry_inv st"
  shows "registry_inv st' \<and> found_a st' = found_a st"
proof -
  have step: "\<And>xs s'. process_items session xs (st\<lparr>remote := s'\<rparr>) = Some (Inr st') \<Longrightarrow>
      registry_inv st' \<and> found_a st' = found_a st"
    using process_items_inv [of session _ "st\<lparr>remote := _\<rparr>" st'] assms(2)
    by (simp add: registry_inv_remote)
  from assms show ?thesis
    by (auto simp: process_module_def Let_def
        split: json.splits if_splits option.splits prod.splits sum.splits
        dest: step process_items_inv)
qed

lemma process_modules_inv:
  "process_modules cfg session modules st = Some (Inr st') \<Longrightarrow> registry_inv st \<Longrightarrow>
     registry_inv st' \<and> found_a st' = found_a st"
proof (induction modules arbitrary: st)
  case Nil
  then show ?case by simp
next
  case (Cons module modules)
  from Cons.prems(1) obtain st1 where
    one: "process_module cfg session module st = Some (Inr st1)" and
    rest: "process_modules cfg session modules st1 = Some (Inr st')"
    by (auto split: option.splits sum.splits)
  from process_module_inv [OF one Cons.prems(2)] Cons.IH [OF rest]
  show ?case by simp
qed

lemma path_a_all_inv:
  assumes "path_a_all cfg session st = Some (Inr st')" and "registry_inv st"
  shows "registry_inv st' \<and> found_b st' = found_b st"
proof -
  have step: "\<And>xs s'. path_a xs (st\<lparr>remote := s'\<rparr>) = Inr st' \<Longrightarrow>
      registry_inv st' \<and> found_b st' = found_b st"
    using path_a_inv [of _ "st\<lparr>remote := _\<rparr>" st'] assms(2)
    by (simp add: registry_inv_remote)
  from assms show ?thesis
    by (auto simp: path_a_all_def registry_inv_remote
        split: option.splits prod.splits fetch_result.splits dest: step)
qed

lemma path_b_all_inv:
  assumes "path_b_all cfg session st = Some (Inr st')" and "registry_inv st"
  shows "registry_inv st' \<and> found_a st' = found_a st"
proof -
  have step: "\<And>xs s'. process_modules cfg session xs (st\<lparr>remote := s'\<rparr>) = Some (Inr st') \<Longrightarrow>
      registry_inv st' \<and> found_a st' = found_a st"
    using process_modules_inv [of cfg session _ "st\<lparr>remote := _\<rparr>" st'] assms(2)
    by (simp add: registry_inv_remote)
  from assms show ?thesis
    by (auto simp: path_b_all_def registry_inv_remote
        split: option.splits prod.splits fetch_result.splits dest: step)
qed

lemma build_registry_inv:
  assumes "build_registry cfg session s = Some (Inr st)"
  shows "registry_inv st"
proof -
  let ?st0 = "\<lparr>files_to_download = [], found_a = [], found_b = [], remote = s\<rparr>"
  from assms obtain st1 where
    a: "path_a_all cfg session ?st0 = Some (Inr st1)" and
    b: "path_b_all cfg session st1 = Some (Inr st)"
    by (auto simp: build_registry_def split: option.splits sum.splits)
  have "registry_inv ?st0" by (simp add: registry_inv_def)
  from path_a_all_inv [OF a this] path_b_all_inv [OF b] show ?thesis by simp
qed

lemma map_of_rev_distinct: "distinct (map fst xs) \<Longrightarrow> map_of (rev xs) = map_of xs"
proof (induction xs)
  case Nil
  show ?case by simp
next
  case (Cons x xs)
  then have "fst x \<notin> dom (map_of (rev xs))"
    by (simp add: dom_map_of_conv_image_fst)
  then have "map_of [x] ++ map_of (rev xs) = (map_of (rev xs))(fst x \<mapsto> snd x)"
    by (cases x) (auto simp: map_add_def fun_eq_iff split: option.splits)
  with Cons show ?case by (cases x) simp
qed

lemma registry_inv_facts:
  assumes "registry_inv st"
  shows "distinct (map fst (files_to_download st))"
    and "length (files_to_download st) = card (fst ` set (found_a st @ found_b st))"
    and "k \<in> fst ` set (found_a st) \<Longrightarrow>
           \<exists>r. map_of (files_to_download st) k = Some r \<and> (k, r) \<in> set (found_a st)"
    and "k \<notin> fst ` set (found_a st) \<Longrightarrow>
           map_of (files_to_download st) k = map_of (found_b st) k"
    and "distinct (map fst (found_a st)) \<Longrightarrow>
           map_of (files_to_download st) = map_of (found_a st @ found_b st)"
proof -
  from assms have m: "map_of (files_to_download st) = map_of (found_b st) ++ map_of (rev (found_a st))"
    and d: "distinct (map fst (files_to_download st))"
    by (simp_all add: registry_inv_def)
  show "distinct (map fst (files_to_download st))" by (rule d)
  have "dom (map_of (files_to_download st)) = fst ` set (found_a st @ found_b st)"
    unfolding m by (auto simp: dom_map_of_conv_image_fst)
  then have "fst ` set (files_to_download st) = fst ` set (found_a st @ found_b st)"
    by (simp add: dom_map_of_conv_image_fst)
  moreover have "card (fst ` set (files_to_download st)) = length (files_to_download st)"
    using distinct_card [OF d] by simp
  ultimately show "length (files_to_download st) = card (fst ` set (found_a st @ found_b st))"
    by simp
  show "\<exists>r. map_of (files_to_download st) k = Some r \<and> (k, r) \<in> set (found_a st)"
    if "k \<in> fst ` set (found_a st)"
  proof -
    from that have "k \<in> dom (map_of (rev (found_a st)))"
      by (simp add: dom_map_of_conv_image_fst)
    then obtain r where r: "map_of (rev (found_a st)) k = Some r" by auto
    then have "(k, r) \<in> set (found_a st)" using map_of_SomeD by fastforce
    with r show ?thesis unfolding m by (auto simp: map_add_def)
  qed
  show "map_of (files_to_download st) k = map_of (found_b st) k"
    if "k \<notin> fst ` set (found_a st)"
  proof -
    from that have "map_of (rev (found_a st)) k = None"
      by (simp add: map_of_eq_None_iff)
    then show ?thesis unfolding m by (simp add: map_add_def)
  qed
  show "map_of (files_to_download st) = map_of (found_a st @ found_b st)"
    if "distinct (map fst (found_a st))"
    unfolding m by (simp add: map_of_rev_distinct [OF that])
qed

subsection \<open>A course for the examples\<close>

lemma served_fetch_list:
  assumes "u \<noteq> []" and "map_of tbl u = Some (Some (page_response xs None))"
  shows "make_api_request (served tbl) n (JStr u) params = Some (Fetched xs, Suc n)"
proof -
  have "page_walk (served tbl) n (JStr u) params [xs] = Some (Suc n, JNull, None)"
    using assms
    by (simp add: served_def page_response_def raise_for_status_def next_url_of_def)
  from loop_page_walk [OF this, of "[]"] show ?thesis
    by (simp add: make_api_request_def loop_falsy)
qed

lemma served_fetch_object:
  assumes "u \<noteq> []" and "map_of tbl u = Some (Some (body_response 200 (Some (JDict d))))"
  shows "make_api_request (served tbl) n (JStr u) params = Some (Fetched [JDict d], Suc n)"
proof -
  let ?r = "body_response 200 (Some (JDict d))"
  have t: "truthy (JStr u)" using assms(1) by simp
  have g: "served tbl n (JStr u) params = (Some ?r, Suc n)"
    using assms(2) by (simp add: served_def)
  have ok: "\<not> raise_for_status ?r"
    by (simp add: raise_for_status_def body_response_def)
  have b: "\<forall>xs. json_body ?r \<noteq> Some (JList xs)"
    by (simp add: body_response_def)
  from t g ok b
  have "make_api_request_loop (served tbl) n (JStr u) params [] =
          Some (Fetched ([] @ (case json_body ?r of Some (JDict d) \<Rightarrow> [JDict d] | _ \<Rightarrow> [])), Suc n)"
    by (rule loop_last_body)
  then show ?thesis
    by (simp add: make_api_request_def body_response_def)
qed

lemma served_fetch_raises:
  assumes "u \<noteq> []" and "map_of tbl u = None"
  shows "make_api_request (served tbl) n (JStr u) params = Some (FetchFailed, Suc n)"
proof -
  have t: "truthy (JStr u)" using assms(1) by simp
  have g: "served tbl n (JStr u) params = (None, Suc n)"
    using assms(2) by (simp add: served_def)
  have c: "(case None :: response option of None \<Rightarrow> True | Some response \<Rightarrow> raise_for_status response)"
    by simp
  from t g c have "make_api_request_loop (served tbl) n (JStr u) params [] = Some (FetchFailed, Suc n)"
    by (rule loop_transport_failure)
  then show ?thesis by (simp add: make_api_request_def)
qed

definition file_json :: "int \<Rightarrow> string \<Rightarrow> string \<Rightarrow> json" where
  "file_json i name u = JDict [(''id'', JNum i), (''display_name'', JStr name), (''url'', JStr u)]"

definition file_item :: "string \<Rightarrow> json" where
  "file_item u = JDict [(''type'', JStr ''File''), (''title'', JStr ''t''), (''url'', JStr u)]"

definition demo_cfg :: config where
  "demo_cfg = \<lparr>course_id = ''42'', fmt = (\<lambda>v. if v = JNum 10 then ''10'' else ''11'')\<rparr>"

definition demo_table :: "(string \<times> response option) list" where
  "demo_table =
     [(files_url demo_cfg,
       Some (page_response
         [file_json 1 ''a.pdf'' ''u1'', file_json 2 ''b.exe'' ''u2'',
          JDict [(''id'', JNum 9), (''display_name'', JStr ''folder'')]] None)),
      (modules_url demo_cfg,
       Some (page_response
         [JDict [(''id'', JNum 10), (''name'', JStr ''Week 1''),
                 (''items'', JList [file_item ''d3'', JDict [(''type'', JStr ''Page'')],
                                    file_item ''gone'', file_item ''d1''])],
          JDict [(''id'', JNum 11), (''name'', JStr ''Week 2'')]] None)),
      (''d3'', Some (body_response 200 (Some (file_json 3 ''c.docx'' ''u3'')))),
      (''d1'', Some (page_response [file_json 1 ''a-copy.pdf'' ''u1b''] None))]"

definition demo_registry :: registry where
  "demo_registry =
     [(KInt 1, \<lparr>rec_filename = JStr ''a.pdf'', rec_url = JStr ''u1'', rec_id = JNum 1\<rparr>),
      (KInt 2, \<lparr>rec_filename = JStr ''b.exe'', rec_url = JStr ''u2'', rec_id = JNum 2\<rparr>),
      (KInt 3, \<lparr>rec_filename = JStr ''c.docx'', rec_url = JStr ''u3'', rec_id = JNum 3\<rparr>)]"

definition demo_final :: "nat build_state" where
  "demo_final =
     \<lparr>files_to_download = demo_registry,
      found_a = take 2 demo_registry,
      found_b =
        [(KInt 3, \<lparr>rec_filename = JStr ''c.docx'', rec_url = JStr ''u3'', rec_id = JNum 3\<rparr>),
         (KInt 1, \<lparr>rec_filename = JStr ''a-copy.pdf'', rec_url = JStr ''u1b'', rec_id = JNum 1\<rparr>)],
      remote = 6\<rparr>"

lemma demo_urls:
  "files_url demo_cfg = ''https://canvas.sfu.ca/api/v1/courses/42/files''"
  "modules_url demo_cfg = ''https://canvas.sfu.ca/api/v1/courses/42/modules''"
  "items_url demo_cfg (JNum 11) = ''https://canvas.sfu.ca/api/v1/courses/42/modules/11/items''"
  by (simp_all add: files_url_def modules_url_def items_url_def demo_cfg_def CANVAS_BASE_URL_def)

lemma demo_path_a:
  "path_a_all demo_cfg (served demo_table)
     \<lparr>files_to_download = [], found_a = [], found_b = [], remote = 0\<rparr>
   = Some (Inr \<lparr>files_to_download = take 2 demo_registry, found_a = take 2 demo_registry,
               found_b = [], remote = Suc 0\<rparr>)"
proof -
  have "make_api_request (served demo_table) 0 (JStr (files_url demo_cfg))
          (Some [(''per_page'', JNum 100)])
        = Some (Fetched [file_json 1 ''a.pdf'' ''u1'', file_json 2 ''b.exe'' ''u2'',
                  JDict [(''id'', JNum 9), (''display_name'', JStr ''folder'')]], Suc 0)"
    by (simp add: served_fetch_list demo_table_def demo_urls)
  then show ?thesis
    by (simp add: path_a_all_def path_a_step_def new_record_def dict_get_def file_json_def
        demo_registry_def)
qed

lemma demo_details:
  "make_api_request (served demo_table) n (JStr ''d3'') None
     = Some (Fetched [file_json 3 ''c.docx'' ''u3''], Suc n)"
  "make_api_request (served demo_table) n (JStr ''gone'') None = Some (FetchFailed, Suc n)"
  "make_api_request (served demo_table) n (JStr ''d1'') None
     = Some (Fetched [file_json 1 ''a-copy.pdf'' ''u1b''], Suc n)"
  "make_api_request (served demo_table) n (JStr (items_url demo_cfg (JNum 11)))
     (Some [(''per_page'', JNum 100)]) = Some (FetchFailed, Suc n)"
proof -
  show "make_api_request (served demo_table) n (JStr ''d3'') None
     = Some (Fetched [file_json 3 ''c.docx'' ''u3''], Suc n)"
    unfolding file_json_def
    by (rule served_fetch_object) (simp_all add: demo_table_def demo_urls file_json_def)
  show "make_api_request (served demo_table) n (JStr ''gone'') None = Some (FetchFailed, Suc n)"
    by (rule served_fetch_raises) (simp_all add: demo_table_def demo_urls)
  show "make_api_request (served demo_table) n (JStr ''d1'') None
     = Some (Fetched [file_json 1 ''a-copy.pdf'' ''u1b''], Suc n)"
    by (rule served_fetch_list) (simp_all add: demo_table_def demo_urls)
  show "make_api_request (served demo_table) n (JStr (items_url demo_cfg (JNum 11)))
     (Some [(''per_page'', JNum 100)]) = Some (FetchFailed, Suc n)"
    by (rule served_fetch_raises) (simp_all add: demo_table_def demo_urls)
qed

lemma demo_modules:
  "make_api_request (served demo_table) n (JStr (modules_url demo_cfg))
     (Some [(''include'', JList [JStr ''items'']), (''per_page'', JNum 50)])
   = Some (Fetched
       [JDict [(''id'', JNum 10), (''name'', JStr ''Week 1''),
               (''items'', JList [file_item ''d3'', JDict [(''type'', JStr ''Page'')],
                                  file_item ''gone'', file_item ''d1''])],
        JDict [(''id'', JNum 11), (''name'', JStr ''Week 2'')]], Suc n)"
  by (rule served_fetch_list) (simp_all add: demo_table_def demo_urls)

lemma demo_path_b:
  "path_b_all demo_cfg (served demo_table)
     \<lparr>files_to_download = take 2 demo_registry, found_a = take 2 demo_registry,
      found_b = [], remote = Suc 0\<rparr>
   = Some (Inr demo_final)"
  by (simp add: path_b_all_def demo_modules process_module_def process_item_def
      register_detail_def new_record_def dict_get_def file_json_def file_item_def
      demo_details demo_registry_def demo_final_def eval_nat_numeral)

lemma demo_build:
  "build_registry demo_cfg (served demo_table) 0 = Some (Inr demo_final)"
  by (simp add: build_registry_def demo_path_a demo_path_b)

subsection \<open>Deduplication and failures\<close>

definition dup_table :: "(string \<times> response option) list" where
  "dup_table =
     [(files_url demo_cfg,
       Some (page_response [file_json 1 ''a.pdf'' ''u1'', file_json 1 ''b.pdf'' ''u2''] None)),
      (modules_url demo_cfg, Some (page_response [] None))]"

definition dup_final :: "nat build_state" where
  "dup_final =
     \<lparr>files_to_download =
        [(KInt 1, \<lparr>rec_filename = JStr ''b.pdf'', rec_url = JStr ''u2'', rec_id = JNum 1\<rparr>)],
      found_a =
        [(KInt 1, \<lparr>rec_filename = JStr ''a.pdf'', rec_url = JStr ''u1'', rec_id = JNum 1\<rparr>),
         (KInt 1, \<lparr>rec_filename = JStr ''b.pdf'', rec_url = JStr ''u2'', rec_id = JNum 1\<rparr>)],
      found_b = [],
      remote = 2\<rparr>"

text \<open>
  C1, as the code has it: the registry has one record per distinct id, so its size is the
  number of distinct ids discovered. Path B never overwrites: an id that Path A inserted
  keeps a record of Path A, and an id that only Path B discovers keeps the first record
  that Path B found for it. When the ids that Path A inserts are pairwise distinct, the
  registry maps every id to the first record discovered for it, Path A before Path B.
\<close>

theorem build_registry_first_discovery:
  assumes "build_registry cfg session s = Some (Inr st)"
  shows "distinct (map fst (files_to_download st))
    \<and> length (files_to_download st) = card (fst ` set (found_a st @ found_b st))
    \<and> (\<forall>k. k \<in> fst ` set (found_a st) \<longrightarrow>
          (\<exists>r. map_of (files_to_download st) k = Some r \<and> (k, r) \<in> set (found_a st)))
    \<and> (\<forall>k. k \<notin> fst ` set (found_a st) \<longrightarrow>
          map_of (files_to_download st) k = map_of (found_b st) k)
    \<and> (distinct (map fst (found_a st)) \<longrightarrow>
          map_of (files_to_download st) = map_of (found_a st @ found_b st))"
  using registry_inv_facts [OF build_registry_inv [OF assms]] by blast

theorem build_registry_first_discovery_witness:
  "build_registry demo_cfg (served demo_table) 0 = Some (Inr demo_final)
   \<and> distinct (map fst (found_a demo_final))
   \<and> map fst (found_a demo_final @ found_b demo_final) = [KInt 1, KInt 2, KInt 3, KInt 1]
   \<and> length (files_to_download demo_final) = 3
   \<and> map_of (files_to_download demo_final) = map_of (found_a demo_final @ found_b demo_final)
   \<and> map_of (files_to_download demo_final) (KInt 1)
       = Some \<lparr>rec_filename = JStr ''a.pdf'', rec_url = JStr ''u1'', rec_id = JNum 1\<rparr>"
proof -
  have d: "distinct (map fst (found_a demo_final))"
    by (simp add: demo_final_def demo_registry_def)
  have "map fst (found_a demo_final @ found_b demo_final) = [KInt 1, KInt 2, KInt 3, KInt 1]"
    by (simp add: demo_final_def demo_registry_def)
  moreover have "length (files_to_download demo_final) = 3"
    by (simp add: demo_final_def demo_registry_def)
  moreover have "map_of (files_to_download demo_final) (KInt 1)
       = Some \<lparr>rec_filename = JStr ''a.pdf'', rec_url = JStr ''u1'', rec_id = JNum 1\<rparr>"
    by (simp add: demo_final_def demo_registry_def)
  ultimately show ?thesis
    using build_registry_first_discovery [OF demo_build] d demo_build by blast
qed

text \<open>
  Two entries of the file listing with the same id: the registry keeps the second, since
  Path A assigns without a test.
\<close>

theorem build_registry_first_discovery_counterexample:
  "build_registry demo_cfg (served dup_table) 0 = Some (Inr dup_final)
   \<and> map fst (found_a dup_final) = [KInt 1, KInt 1]
   \<and> map_of (files_to_download dup_final) (KInt 1) \<noteq> Some (snd (hd (found_a dup_final)))
   \<and> map_of (files_to_download dup_final) (KInt 1) = Some (snd (last (found_a dup_final)))"
proof -
  have a: "make_api_request (served dup_table) 0 (JStr (files_url demo_cfg))
             (Some [(''per_page'', JNum 100)])
           = Some (Fetched [file_json 1 ''a.pdf'' ''u1'', file_json 1 ''b.pdf'' ''u2''], Suc 0)"
    by (rule served_fetch_list) (simp_all add: dup_table_def demo_urls)
  have b: "make_api_request (served dup_table) (Suc 0) (JStr (modules_url demo_cfg))
             (Some [(''include'', JList [JStr ''items'']), (''per_page'', JNum 50)])
           = Some (Fetched [], Suc (Suc 0))"
    by (rule served_fetch_list) (simp_all add: dup_table_def demo_urls)
  have "build_registry demo_cfg (served dup_table) 0 = Some (Inr dup_final)"
    by (simp add: build_registry_def path_a_all_def path_b_all_def a b path_a_step_def
        new_record_def dict_get_def file_json_def dup_final_def eval_nat_numeral)
  then show ?thesis by (simp add: dup_final_def)
qed



section \<open>Extension filter\<close>

definition ALLOWED_EXTENSIONS :: "string list" where
  "ALLOWED_EXTENSIONS =
     [''.pptx'', ''.pdf'', ''.zip'', ''.docx'', ''.py'', ''.ipynb'', ''.java'', ''.txt'', ''.csv'']"

text \<open>\<open>p.rfind(c)\<close> for a one-character \<open>c\<close>: the last index of \<open>c\<close> in \<open>p\<close>, or \<open>-1\<close>.\<close>

definition rfind :: "string \<Rightarrow> char \<Rightarrow> int" where
  "rfind p c =
     (case filter (\<lambda>i. p ! i = c) (rev [0..<length p]) of [] \<Rightarrow> - 1 | i # _ \<Rightarrow> int i)"

text \<open>
  \<open>genericpath._splitext(p, sep, altsep, extsep)\<close> of the standard library:
  \<^verbatim>\<open>
  sepIndex = p.rfind(sep)
  if altsep:
      altsepIndex = p.rfind(altsep)
      sepIndex = max(sepIndex, altsepIndex)
  dotIndex = p.rfind(extsep)
  if dotIndex > sepIndex:
      # skip all leading dots
      filenameIndex = sepIndex + 1
      while filenameIndex < dotIndex:
          if p[filenameIndex:filenameIndex+1] != extsep:
              return p[:dotIndex], p[dotIndex:]
          filenameIndex += 1
  return p, p[:0]
  \<close>
  \<open>os.path.splitext\<close> is taken to be the one of \<open>posixpath\<close>: \<open>sep\<close> is \<open>/\<close>, there is no
  \<open>altsep\<close>, and \<open>extsep\<close> is the dot.
\<close>

definition splitext_generic :: "string \<Rightarrow> char \<Rightarrow> char option \<Rightarrow> char \<Rightarrow> string \<times> string" where
  "splitext_generic p sep altsep extsep =
     (let sepIndex = rfind p sep;
          sepIndex = (case altsep of None \<Rightarrow> sepIndex | Some a \<Rightarrow> max sepIndex (rfind p a));
          dotIndex = rfind p extsep
      in if dotIndex > sepIndex
            \<and> list_ex (\<lambda>filenameIndex. p ! filenameIndex \<noteq> extsep)
                 [nat (sepIndex + 1)..<nat dotIndex]
         then (take (nat dotIndex) p, drop (nat dotIndex) p)
         else (p, []))"

definition splitext :: "string \<Rightarrow> string \<times> string" where
  "splitext p = splitext_generic p (CHR ''/'') None (CHR ''.'')"

text \<open>
  \<open>str.lower()\<close> on ASCII text: the letters \<open>A\<close> to \<open>Z\<close> become \<open>a\<close> to \<open>z\<close> and every
  other byte is kept. Python also lowercases letters outside ASCII; the result is outside
  ASCII again, but for the Kelvin sign, which becomes \<open>k\<close>, a letter that no entry of the
  allow list has. So the test against the allow list is the same.
\<close>

definition lower_char :: "char \<Rightarrow> char" where
  "lower_char c =
     (case map_of (zip ''ABCDEFGHIJKLMNOPQRSTUVWXYZ'' ''abcdefghijklmnopqrstuvwxyz'') c of
        None \<Rightarrow> c
      | Some l \<Rightarrow> l)"

definition str_lower :: "string \<Rightarrow> string" where
  "str_lower s = map lower_char s"

text \<open>Line 167: \<open>file_ext = os.path.splitext(original_filename)[1].lower()\<close>.\<close>

definition file_ext :: "string \<Rightarrow> string" where
  "file_ext original_filename = str_lower (snd (splitext original_filename))"

lemma lower_char_fixed:
  "c \<notin> set ''ABCDEFGHIJKLMNOPQRSTUVWXYZ'' \<Longrightarrow> lower_char c = c"
  by (simp add: lower_char_def)

lemma lower_char_range:
  "lower_char c = c \<or> lower_char c \<in> set ''abcdefghijklmnopqrstuvwxyz''"
proof (cases "map_of (zip ''ABCDEFGHIJKLMNOPQRSTUVWXYZ'' ''abcdefghijklmnopqrstuvwxyz'') c")
  case None
  then show ?thesis by (simp add: lower_char_def)
next
  case (Some l)
  then have "(c, l) \<in> set (zip ''ABCDEFGHIJKLMNOPQRSTUVWXYZ'' ''abcdefghijklmnopqrstuvwxyz'')"
    by (rule map_of_SomeD)
  then have "l \<in> set ''abcdefghijklmnopqrstuvwxyz''"
    by (rule set_zip_rightD)
  with Some show ?thesis by (simp add: lower_char_def)
qed

lemma lower_char_eq_mark:
  assumes "c \<notin> set ''ABCDEFGHIJKLMNOPQRSTUVWXYZ''" and "c \<notin> set ''abcdefghijklmnopqrstuvwxyz''"
  shows "lower_char x = c \<longleftrightarrow> x = c"
proof
  assume "lower_char x = c"
  with lower_char_range [of x] assms(2) show "x = c" by auto
next
  assume "x = c"
  with assms(1) show "lower_char x = c" by (simp add: lower_char_fixed)
qed

lemma rfind_lower:
  assumes "c \<notin> set ''ABCDEFGHIJKLMNOPQRSTUVWXYZ''" and "c \<notin> set ''abcdefghijklmnopqrstuvwxyz''"
  shows "rfind (str_lower p) c = rfind p c"
proof -
  have "filter (\<lambda>i. str_lower p ! i = c) (rev [0..<length p])
        = filter (\<lambda>i. p ! i = c) (rev [0..<length p])"
    by (rule filter_cong) (simp_all add: str_lower_def lower_char_eq_mark [OF assms])
  then show ?thesis by (simp add: rfind_def str_lower_def)
qed

lemma rfind_bounds: "- 1 \<le> rfind p c \<and> rfind p c < int (length p)"
proof (cases "filter (\<lambda>i. p ! i = c) (rev [0..<length p])")
  case Nil
  then show ?thesis by (simp add: rfind_def)
next
  case (Cons i rest)
  then have "i \<in> set (filter (\<lambda>i. p ! i = c) (rev [0..<length p]))" by simp
  then have "i < length p" by simp
  with Cons show ?thesis by (simp add: rfind_def)
qed

lemma splitext_lower: "snd (splitext (str_lower p)) = str_lower (snd (splitext p))"
proof -
  have s: "rfind (str_lower p) (CHR ''/'') = rfind p (CHR ''/'')"
    by (rule rfind_lower) simp_all
  have d: "rfind (str_lower p) (CHR ''.'') = rfind p (CHR ''.'')"
    by (rule rfind_lower) simp_all
  have m: "lower_char x = CHR ''.'' \<longleftrightarrow> x = CHR ''.''" for x
    by (rule lower_char_eq_mark) simp_all
  have "list_ex (\<lambda>i. str_lower p ! i \<noteq> CHR ''.'')
          [nat (rfind p (CHR ''/'') + 1)..<nat (rfind p (CHR ''.''))]
        = list_ex (\<lambda>i. p ! i \<noteq> CHR ''.'')
          [nat (rfind p (CHR ''/'') + 1)..<nat (rfind p (CHR ''.''))]"
    unfolding list_ex_iff
  proof (rule bex_cong [OF refl])
    fix i assume "i \<in> set [nat (rfind p (CHR ''/'') + 1)..<nat (rfind p (CHR ''.''))]"
    then have "i < length p" using rfind_bounds [of p "CHR ''.''"] by auto
    then show "(str_lower p ! i \<noteq> CHR ''.'') = (p ! i \<noteq> CHR ''.'')"
      by (simp add: str_lower_def m)
  qed
  then show ?thesis
    by (simp add: splitext_def splitext_generic_def s d Let_def)
      (simp add: str_lower_def drop_map)
qed

lemma file_ext_lower: "file_ext p = snd (splitext (str_lower p))"
  by (simp add: file_ext_def splitext_lower)

section \<open>Downloader\<close>

text \<open>
  The exceptions that a step of \<open>download_file\<close> can raise, by the class the \<open>except\<close>
  clauses test, with the text that \<open>{e}\<close> prints. \<open>requests\<close> derives \<open>RequestException\<close>
  from \<open>IOError\<close>, which is \<open>OSError\<close>; every other class meant here derives from
  \<open>Exception\<close>.
\<close>

datatype exn_class = RequestException | OSError | OtherException

record exn =
  exn_class :: exn_class
  exn_text :: string

definition is_RequestException :: "exn \<Rightarrow> bool" where
  "is_RequestException e = (exn_class e = RequestException)"

definition is_OSError :: "exn \<Rightarrow> bool" where
  "is_OSError e = (exn_class e = RequestException \<or> exn_class e = OSError)"

text \<open>The progress messages of \<open>download_file\<close>, one constructor per format string.\<close>

datatype report =
    Downloading string
  | Downloaded string
  | ErrorDownloading string json string
  | ErrorSaving string string string
  | UnexpectedError string string

text \<open>
  What the console, the network and the file system do during one call: whether \<open>print\<close>
  raises for a message (a text that the encoding of the console cannot write, a closed
  stream), whether \<open>session.get\<close> raises, the status of its response and the text of the
  \<open>HTTPError\<close> that \<open>raise_for_status\<close> builds for it, whether \<open>os.makedirs\<close> and \<open>open\<close>
  raise, the chunks that \<open>iter_content\<close> yields (each with what \<open>f.write\<close> does with it) up
  to the end of the body or to an exception of the stream, and whether closing the file
  and the response raises.
\<close>

datatype stream_step = Chunk string "exn option" | ReadError exn

record download_io =
  print_raises :: "report \<Rightarrow> exn option"
  get_raises :: "exn option"
  get_status_code :: nat
  http_error_text :: string
  makedirs_raises :: "exn option"
  open_raises :: "exn option"
  stream :: "stream_step list"
  file_close_raises :: "exn option"
  response_close_raises :: "exn option"

text \<open>
  \<open>for chunk in r.iter_content(chunk_size=8192): f.write(chunk)\<close>: the exception that ends
  the loop, if any, and the chunks written.
\<close>

fun write_chunks :: "stream_step list \<Rightarrow> string list \<Rightarrow> exn option \<times> string list" where
  "write_chunks [] written = (None, written)"
| "write_chunks (ReadError e # rest) written = (Some e, written)"
| "write_chunks (Chunk chunk w # rest) written =
     (case w of
        Some e \<Rightarrow> (Some e, written)
      | None \<Rightarrow> write_chunks rest (written @ [chunk]))"

text \<open>
  Leaving a \<open>with\<close> block closes its resource, whether the block raised or not; an exception
  of the close is the one that goes on.
\<close>

definition with_exit :: "exn option \<Rightarrow> exn option \<Rightarrow> exn option" where
  "with_exit raised close_raises = (case close_raises of Some e \<Rightarrow> Some e | None \<Rightarrow> raised)"

text \<open>
  The two \<open>with\<close> blocks, lines 71-76: the exception they raise, if any, and the chunks
  written to the file if it was opened.
\<close>

definition with_blocks :: "download_io \<Rightarrow> exn option \<times> string list option" where
  "with_blocks io =
     (case get_raises io of
        Some e \<Rightarrow> (Some e, None)
      | None \<Rightarrow>
          (let (raised, file) =
             (if 400 \<le> get_status_code io \<and> get_status_code io < 600
              then (Some \<lparr>exn_class = RequestException, exn_text = http_error_text io\<rparr>, None)
              else
                (case makedirs_raises io of
                   Some e \<Rightarrow> (Some e, None)
                 | None \<Rightarrow>
                     (case open_raises io of
                        Some e \<Rightarrow> (Some e, None)
                      | None \<Rightarrow>
                          (let (raised, written) = write_chunks (stream io) []
                           in (with_exit raised (file_close_raises io), Some written)))))
           in (with_exit raised (response_close_raises io), file)))"

text \<open>
  The body of the \<open>try\<close>, lines 71-77: the \<open>with\<close> blocks and then the message of success,
  whose \<open>print\<close> is inside the \<open>try\<close>. The result is the exception raised, if any, the
  chunks written, and the message printed.
\<close>

definition try_body ::
  "download_io \<Rightarrow> string \<Rightarrow> exn option \<times> string list option \<times> report list" where
  "try_body io full_path =
     (let (raised, file) = with_blocks io
      in case raised of
           Some e \<Rightarrow> (Some e, file, [])
         | None \<Rightarrow>
             (case print_raises io (Downloaded full_path) of
                Some e \<Rightarrow> (Some e, file, [])
              | None \<Rightarrow> (None, file, [Downloaded full_path])))"

text \<open>
  The three \<open>except\<close> clauses, lines 79-84, in their order: the message that the handler of
  an exception prints.
\<close>

definition error_report :: "string \<Rightarrow> json \<Rightarrow> string \<Rightarrow> exn \<Rightarrow> report" where
  "error_report filename url full_path e =
     (if is_RequestException e then ErrorDownloading filename url (exn_text e)
      else if is_OSError e then ErrorSaving filename full_path (exn_text e)
      else UnexpectedError filename (exn_text e))"

text \<open>\<open>posixpath.join\<close> for two components.\<close>

definition os_path_join :: "string \<Rightarrow> string \<Rightarrow> string" where
  "os_path_join a b =
     (if b \<noteq> [] \<and> hd b = CHR ''/'' then b
      else if a = [] \<or> last a = CHR ''/'' then a @ b
      else a @ ''/'' @ b)"

text \<open>
  \<open>download_file(url, filename, download_path, session)\<close>; the session is here what the
  console, the network and the file system do during the call. The result is the returned
  bool, or the exception that leaves the function, then the messages printed, and the
  chunks written to the file if it was opened. The \<open>print\<close> of line 69 stands before the
  \<open>try\<close>, and the \<open>print\<close> of a handler is not inside a \<open>try\<close> either: an exception of
  these leaves the function.
\<close>

definition download_file ::
  "download_io \<Rightarrow> json \<Rightarrow> string \<Rightarrow> string \<Rightarrow>
     (exn + bool) \<times> report list \<times> string list option" where
  "download_file io url filename download_path =
     (let full_path = os_path_join download_path filename
      in case print_raises io (Downloading filename) of
           Some e \<Rightarrow> (Inl e, [], None)
         | None \<Rightarrow>
             (let (raised, file, msgs) = try_body io full_path
              in case raised of
                   None \<Rightarrow> (Inr True, Downloading filename # msgs, file)
                 | Some e \<Rightarrow>
                     (let msg = error_report filename url full_path e
                      in case print_raises io msg of
                           Some e' \<Rightarrow> (Inl e', [Downloading filename], file)
                         | None \<Rightarrow> (Inr False, [Downloading filename, msg], file))))"

subsection \<open>The result of a download\<close>















definition ok_io :: download_io where
  "ok_io =
     \<lparr>print_raises = (\<lambda>msg. None), get_raises = None, get_status_code = 200,
      http_error_text = [], makedirs_raises = None, open_raises = None,
      stream = [Chunk ''12345678'' None, Chunk ''9'' None], file_close_raises = None,
      response_close_raises = None\<rparr>"

definition reset_io :: download_io where
  "reset_io =
     ok_io\<lparr>stream := [Chunk ''12345678'' None,
                       ReadError \<lparr>exn_class = RequestException, exn_text = ''reset''\<rparr>]\<rparr>"





section \<open>The download loop\<close>

text \<open>
  The counters of lines 155-157, the state of the world outside (console, network and file
  system), and the messages printed. The world answers a download of a URL to a file name
  with what happens during it, and moves on.
\<close>

record 'w download_state =
  download_count :: nat
  skipped_count :: nat
  error_count :: nat
  outside :: 'w
  printed :: "report list"

type_synonym 'w world = "'w \<Rightarrow> json \<Rightarrow> string \<Rightarrow> download_io \<times> 'w"

definition DOWNLOAD_DIR :: "config \<Rightarrow> string" where
  "DOWNLOAD_DIR cfg = ''canvas_course_'' @ course_id cfg @ ''_files''"

text \<open>
  What ends the loop before its end: an exception of the loop's own code, or one that
  leaves \<open>download_file\<close>; the loop catches neither.
\<close>

datatype crash = PyError py_error | Uncaught exn

text \<open>
  The body of \<open>for file_id, file_info in files_to_download.items()\<close>, lines 164-175.
  \<open>os.path.splitext\<close> raises \<open>TypeError\<close> for a name that is not a string.
\<close>

definition download_entry ::
  "config \<Rightarrow> 'w world \<Rightarrow> file_record \<Rightarrow> 'w download_state \<Rightarrow> crash + 'w download_state" where
  "download_entry cfg world file_info ds =
     (case rec_filename file_info of
        JStr original_filename \<Rightarrow>
          (let download_url = rec_url file_info in
           if file_ext original_filename \<in> set ALLOWED_EXTENSIONS then
             (let sanitized = sanitize_filename original_filename;
                  (io, w') = world (outside ds) download_url sanitized;
                  (result, msgs, file) =
                    download_file io download_url sanitized (DOWNLOAD_DIR cfg)
              in case result of
                   Inl e \<Rightarrow> Inl (Uncaught e)
                 | Inr ok \<Rightarrow>
                     if ok
                     then Inr (ds\<lparr>download_count := download_count ds + 1, outside := w',
                                 printed := printed ds @ msgs\<rparr>)
                     else Inr (ds\<lparr>error_count := error_count ds + 1, outside := w',
                                 printed := printed ds @ msgs\<rparr>))
           else Inr (ds\<lparr>skipped_count := skipped_count ds + 1\<rparr>))
      | _ \<Rightarrow> Inl (PyError TypeError))"

fun download_all ::
  "config \<Rightarrow> 'w world \<Rightarrow> registry \<Rightarrow> 'w download_state \<Rightarrow> crash + 'w download_state" where
  "download_all cfg world [] ds = Inr ds"
| "download_all cfg world ((file_id, file_info) # rest) ds =
     (case download_entry cfg world file_info ds of
        Inl e \<Rightarrow> Inl e
      | Inr ds' \<Rightarrow> download_all cfg world rest ds')"

subsection \<open>The extension test\<close>

lemma allowed_lower:
  "str_lower a = str_lower b \<Longrightarrow> file_ext a = file_ext b"
  by (simp add: file_ext_lower)

lemma allowed_extensions_lower: "list_all (\<lambda>e. str_lower e = e) ALLOWED_EXTENSIONS"
  by code_simp

lemma download_entry_skipped:
  "rec_filename file_info = JStr name \<Longrightarrow> file_ext name \<notin> set ALLOWED_EXTENSIONS \<Longrightarrow>
     download_entry cfg world file_info ds = Inr (ds\<lparr>skipped_count := skipped_count ds + 1\<rparr>)"
  by (simp add: download_entry_def)

lemma download_entry_allowed:
  assumes "rec_filename file_info = JStr name" and "file_ext name \<in> set ALLOWED_EXTENSIONS"
  shows "download_entry cfg world file_info ds =
     (let (io, w') = world (outside ds) (rec_url file_info) (sanitize_filename name);
          (result, msgs, file) =
            download_file io (rec_url file_info) (sanitize_filename name) (DOWNLOAD_DIR cfg)
      in case result of
           Inl e \<Rightarrow> Inl (Uncaught e)
         | Inr ok \<Rightarrow>
             Inr (ds\<lparr>download_count := download_count ds + (if ok then 1 else 0),
                     error_count := error_count ds + (if ok then 0 else 1),
                     outside := w', printed := printed ds @ msgs\<rparr>))"
  using assms by (simp add: download_entry_def Let_def split: prod.splits sum.splits)

text \<open>
  C10: the loop tests the extension of the display name as the registry holds it, before
  the name is sanitized; the extension is lowercased and looked up in the allow list, whose
  entries are all lowercase. So two names that differ in letter case only are treated
  alike, and \<open>Report.PDF\<close> is allowed.
\<close>

theorem extension_filter_case_insensitive:
  "(str_lower a = str_lower b \<longrightarrow>
      (file_ext a \<in> set ALLOWED_EXTENSIONS) = (file_ext b \<in> set ALLOWED_EXTENSIONS))
   \<and> file_ext name = str_lower (snd (splitext name))
   \<and> list_all (\<lambda>e. str_lower e = e) ALLOWED_EXTENSIONS
   \<and> file_ext ''Report.PDF'' \<in> set ALLOWED_EXTENSIONS
   \<and> (rec_filename file_info = JStr name \<and> file_ext name \<notin> set ALLOWED_EXTENSIONS \<longrightarrow>
        download_entry cfg world file_info ds = Inr (ds\<lparr>skipped_count := skipped_count ds + 1\<rparr>))
   \<and> (rec_filename file_info = JStr name \<and> file_ext name \<in> set ALLOWED_EXTENSIONS \<longrightarrow>
        download_entry cfg world file_info ds =
          (let (io, w') = world (outside ds) (rec_url file_info) (sanitize_filename name);
               (result, msgs, file) =
                 download_file io (rec_url file_info) (sanitize_filename name) (DOWNLOAD_DIR cfg)
           in case result of
                Inl e \<Rightarrow> Inl (Uncaught e)
              | Inr ok \<Rightarrow>
                  Inr (ds\<lparr>download_count := download_count ds + (if ok then 1 else 0),
                          error_count := error_count ds + (if ok then 0 else 1),
                          outside := w', printed := printed ds @ msgs\<rparr>)))"
proof -
  have "file_ext ''Report.PDF'' \<in> set ALLOWED_EXTENSIONS"
    by code_simp
  then show ?thesis
    using allowed_lower [of a b] allowed_extensions_lower
      download_entry_skipped [of file_info name cfg world ds]
      download_entry_allowed [of file_info name cfg world ds]
    by (simp add: file_ext_def)
qed

definition demo_world :: "nat world" where
  "demo_world n url path = (if url = JStr ''u3'' then (reset_io, Suc n) else (ok_io, Suc n))"

definition demo_start :: "nat download_state" where
  "demo_start =
     \<lparr>download_count = 0, skipped_count = 0, error_count = 0, outside = 0, printed = []\<rparr>"

theorem extension_filter_case_insensitive_witness:
  "str_lower ''Report.PDF'' = str_lower ''report.pdf''
   \<and> (file_ext ''Report.PDF'' \<in> set ALLOWED_EXTENSIONS)
       = (file_ext ''report.pdf'' \<in> set ALLOWED_EXTENSIONS)
   \<and> file_ext ''x.p:df'' \<notin> set ALLOWED_EXTENSIONS
   \<and> file_ext (sanitize_filename ''x.p:df'') \<in> set ALLOWED_EXTENSIONS
   \<and> download_entry demo_cfg demo_world
        \<lparr>rec_filename = JStr ''x.p:df'', rec_url = JStr ''u4'', rec_id = JNum 4\<rparr> demo_start
       = Inr (demo_start\<lparr>skipped_count := 1\<rparr>)
   \<and> download_entry demo_cfg demo_world
        \<lparr>rec_filename = JStr ''My Report.PDF'', rec_url = JStr ''u5'', rec_id = JNum 5\<rparr> demo_start
       = Inr (demo_start\<lparr>download_count := 1, outside := 1,
                printed := [Downloading ''My_Report.PDF'',
                            Downloaded ''canvas_course_42_files/My_Report.PDF'']\<rparr>)"
proof -
  let ?skip = "\<lparr>rec_filename = JStr ''x.p:df'', rec_url = JStr ''u4'', rec_id = JNum 4\<rparr>"
  let ?load = "\<lparr>rec_filename = JStr ''My Report.PDF'', rec_url = JStr ''u5'', rec_id = JNum 5\<rparr>"
  have l: "str_lower ''Report.PDF'' = str_lower ''report.pdf''"
    by code_simp
  have s: "rec_filename ?skip = JStr ''x.p:df'' \<and> file_ext ''x.p:df'' \<notin> set ALLOWED_EXTENSIONS"
    by code_simp
  have a: "rec_filename ?load = JStr ''My Report.PDF''
      \<and> file_ext ''My Report.PDF'' \<in> set ALLOWED_EXTENSIONS"
    by code_simp
  have x: "file_ext (sanitize_filename ''x.p:df'') \<in> set ALLOWED_EXTENSIONS"
    by code_simp
  have n: "sanitize_filename ''My Report.PDF'' = ''My_Report.PDF''"
    by code_simp
  have d: "download_file ok_io (JStr ''u5'') ''My_Report.PDF'' (DOWNLOAD_DIR demo_cfg)
      = (Inr True,
         [Downloading ''My_Report.PDF'', Downloaded ''canvas_course_42_files/My_Report.PDF''],
         Some [''12345678'', ''9''])"
    by code_simp
  note t1 = extension_filter_case_insensitive
    [where a = "''Report.PDF''" and b = "''report.pdf''" and name = "''x.p:df''"
       and file_info = ?skip and cfg = demo_cfg and world = demo_world and ds = demo_start]
  note t2 = extension_filter_case_insensitive
    [where name = "''My Report.PDF''" and file_info = ?load and cfg = demo_cfg
       and world = demo_world and ds = demo_start]
  from t1 [THEN conjunct1, THEN mp, OF l]
  have c2: "(file_ext ''Report.PDF'' \<in> set ALLOWED_EXTENSIONS)
       = (file_ext ''report.pdf'' \<in> set ALLOWED_EXTENSIONS)" .
  from t1 [THEN conjunct2, THEN conjunct2, THEN conjunct2, THEN conjunct2, THEN conjunct1,
      THEN mp, OF s]
  have c5: "download_entry demo_cfg demo_world ?skip demo_start
       = Inr (demo_start\<lparr>skipped_count := 1\<rparr>)"
    by (simp add: demo_start_def)
  from t2 [THEN conjunct2, THEN conjunct2, THEN conjunct2, THEN conjunct2, THEN conjunct2,
      THEN mp, OF a]
  have c6: "download_entry demo_cfg demo_world ?load demo_start
       = Inr (demo_start\<lparr>download_count := 1, outside := 1,
                printed := [Downloading ''My_Report.PDF'',
                            Downloaded ''canvas_course_42_files/My_Report.PDF'']\<rparr>)"
    by (simp add: n d demo_world_def demo_start_def)
  from s have c3: "file_ext ''x.p:df'' \<notin> set ALLOWED_EXTENSIONS" ..
  show ?thesis
    by (intro conjI) (rule l c2 c3 x c5 c6)+
qed

text \<open>
  The course of the examples, downloaded: \<open>a.pdf\<close> succeeds, \<open>b.exe\<close> is skipped, and the
  stream of \<open>c.docx\<close> breaks after the first chunk.
\<close>

lemma demo_download_all:
  "download_all demo_cfg demo_world demo_registry demo_start
   = Inr \<lparr>download_count = 1, skipped_count = 1, error_count = 1, outside = 2,
          printed = [Downloading ''a.pdf'', Downloaded ''canvas_course_42_files/a.pdf'',
                     Downloading ''c.docx'', ErrorDownloading ''c.docx'' (JStr ''u3'') ''reset'']\<rparr>"
  by code_simp

end
